theory Spec2Isabelle
  imports Main "HOL-Library.Word"
begin

unbundle bit_operations_syntax

section \<open>JSON structural operations of \<open>json-formatter/tools/json_tools.py\<close>\<close>

text \<open>
  This theory embeds the three structural operations of
  \<^verbatim>\<open>src/python/json-formatter/tools/json_tools.py\<close> (\<^verbatim>\<open>merge_json\<close> with
  \<^verbatim>\<open>_deep_merge\<close>, \<^verbatim>\<open>extract_json_path\<close>, and \<^verbatim>\<open>compare_json\<close> with
  \<^verbatim>\<open>_compare_values\<close>) and proves properties of them.

  The library call \<^verbatim>\<open>json.loads\<close> is not part of the repository. Each operation
  takes the outcome of that call as its argument: \<open>Some data\<close> for the parsed value,
  \<open>None\<close> where \<^verbatim>\<open>json.loads\<close> raises \<^verbatim>\<open>JSONDecodeError\<close>. The limits of the
  interpreter (memory, the depth of recursion) are not modelled.
\<close>

subsection \<open>Values\<close>

text \<open>
  The values \<^verbatim>\<open>json.loads\<close> returns are Python's \<^verbatim>\<open>None\<close>, \<^verbatim>\<open>bool\<close>,
  \<^verbatim>\<open>int\<close>, \<^verbatim>\<open>float\<close>, \<^verbatim>\<open>str\<close>, \<^verbatim>\<open>list\<close> and \<^verbatim>\<open>dict\<close>. A JSON number
  without fraction or exponent becomes an \<^verbatim>\<open>int\<close> (unbounded), any other number a
  \<^verbatim>\<open>float\<close>; the literals \<^verbatim>\<open>NaN\<close>, \<^verbatim>\<open>Infinity\<close> and \<^verbatim>\<open>-Infinity\<close> are accepted
  and become floats as well.

  A \<^verbatim>\<open>float\<close> is an IEEE 754 binary64 value, kept here as its 64-bit pattern: the
  code only moves floats around and compares them with \<^verbatim>\<open>!=\<close>. For instance
  \<open>0x3FF0000000000000\<close> is \<^verbatim>\<open>1.0\<close>, \<open>0x8000000000000000\<close> is \<^verbatim>\<open>-0.0\<close> and
  \<open>0x7FF8000000000000\<close> is the NaN that \<^verbatim>\<open>json.loads('NaN')\<close> returns.

  A \<^verbatim>\<open>dict\<close> keeps its items in insertion order and has no two items with the same
  key; it is an association list, and \<open>distinct (map fst d)\<close> is that invariant.
  A \<^verbatim>\<open>str\<close> is a \<open>string\<close>, each \<open>char\<close> standing for one character (a code
  point below 256).
\<close>

type_synonym pyfloat = "64 word"

datatype json =
    JNull
  | JBool bool
  | JInt int
  | JFloat pyfloat
  | JStr string
  | JList "json list"
  | JDict "(string \<times> json) list"

type_synonym dict = "(string \<times> json) list"

text \<open>\<^verbatim>\<open>type(v)\<close> and \<^verbatim>\<open>type(v).__name__\<close>.\<close>

datatype pytype = NoneType | BoolType | IntType | FloatType | StrType | ListType | DictType

fun type_of :: "json \<Rightarrow> pytype" where
  "type_of JNull = NoneType"
| "type_of (JBool b) = BoolType"
| "type_of (JInt n) = IntType"
| "type_of (JFloat x) = FloatType"
| "type_of (JStr s) = StrType"
| "type_of (JList xs) = ListType"
| "type_of (JDict d) = DictType"

fun type_name :: "pytype \<Rightarrow> string" where
  "type_name NoneType = ''NoneType''"
| "type_name BoolType = ''bool''"
| "type_name IntType = ''int''"
| "type_name FloatType = ''float''"
| "type_name StrType = ''str''"
| "type_name ListType = ''list''"
| "type_name DictType = ''dict''"

text \<open>
  Equality of two floats: a NaN (exponent bits all set, fraction not zero) equals
  nothing, itself included; \<^verbatim>\<open>0.0\<close> and \<^verbatim>\<open>-0.0\<close> are equal; any other two floats
  are equal when their bit patterns are.
\<close>

definition isnan :: "pyfloat \<Rightarrow> bool" where
  "isnan x = (0x7FF0000000000000 < (x AND 0x7FFFFFFFFFFFFFFF))"

definition float_eq :: "pyfloat \<Rightarrow> pyfloat \<Rightarrow> bool" where
  "float_eq x y =
     (\<not> isnan x \<and> \<not> isnan y \<and> (x = y \<or> (x OR y) AND 0x7FFFFFFFFFFFFFFF = 0))"

text \<open>
  \<^verbatim>\<open>val1 != val2\<close> as \<^verbatim>\<open>_compare_values\<close> uses it (line 290): on two values of
  the same type that are neither \<^verbatim>\<open>dict\<close> nor \<^verbatim>\<open>list\<close>.
\<close>

fun prim_ne :: "json \<Rightarrow> json \<Rightarrow> bool" where
  "prim_ne (JFloat x) (JFloat y) = (\<not> float_eq x y)"
| "prim_ne val1 val2 = (val1 \<noteq> val2)"

subsection \<open>Exceptions\<close>

text \<open>
  Every \<^verbatim>\<open>raise\<close> of the three operations raises \<^verbatim>\<open>ValueError\<close> with one of five
  messages. \<^verbatim>\<open>extract_json_path\<close> also lets the exceptions of Python's own
  operations escape: unpacking a list of the wrong length and \<^verbatim>\<open>int()\<close> raise
  \<^verbatim>\<open>ValueError\<close>, subscripting raises \<^verbatim>\<open>KeyError\<close>, \<^verbatim>\<open>IndexError\<close> or
  \<^verbatim>\<open>TypeError\<close>.
\<close>

datatype message =
    InvalidJSON
  | InvalidJSONInObject nat
  | NotAJSONObject nat
  | CannotAccess string
  | PathNotFound string
  | TooManyValuesToUnpack
  | InvalidLiteralForInt string

datatype error = ValueError message | KeyError | IndexError | TypeError

subsection \<open>Dictionaries\<close>

text \<open>\<^verbatim>\<open>d[key]\<close> for a key that \<^verbatim>\<open>d\<close> has, and \<^verbatim>\<open>d[key] = val\<close>.\<close>

definition getitem :: "dict \<Rightarrow> string \<Rightarrow> json" where
  "getitem d key = the (map_of d key)"

fun setitem :: "dict \<Rightarrow> string \<Rightarrow> json \<Rightarrow> dict" where
  "setitem [] key val = [(key, val)]"
| "setitem ((k, v) # d) key val =
     (if k = key then (key, val) # d else (k, v) # setitem d key val)"

subsection \<open>Merge (lines 125--165)\<close>

lemma size_dict_member:
  "(k, JDict v) \<in> set d \<Longrightarrow>
     size_list (size_prod (\<lambda>x. 0) size) v < size_list (size_prod (\<lambda>x. 0) size) d"
  by (induction d) auto

text \<open>
  \<^verbatim>\<open>_deep_merge(dict1, dict2)\<close>: \<open>result\<close> starts as a copy of \<open>dict1\<close>, and the loop
  over \<^verbatim>\<open>dict2.items()\<close> updates it item by item.
\<close>

function deep_merge :: "dict \<Rightarrow> dict \<Rightarrow> dict" where
  "deep_merge dict1 dict2 =
     fold (\<lambda>(key, val) result.
             (case (map_of result key, val) of
                (Some (JDict r), JDict v) \<Rightarrow> setitem result key (JDict (deep_merge r v))
              | _ \<Rightarrow> setitem result key val))
       dict2 dict1"
  by pat_completeness auto
termination
  by (relation "measure (\<lambda>(dict1, dict2). size_list (size_prod (\<lambda>x. 0) size) dict2)")
    (auto simp: size_dict_member)

declare deep_merge.simps [simp del]

text \<open>
  One round of that loop, written with the function itself, and the value the round
  stores under \<open>key\<close>, given what \<open>result\<close> holds there (\<open>None\<close> when
  \<^verbatim>\<open>key in result\<close> is false).
\<close>

definition merge_item :: "dict \<Rightarrow> string \<Rightarrow> json \<Rightarrow> dict" where
  "merge_item result key val =
     (case (map_of result key, val) of
        (Some (JDict r), JDict v) \<Rightarrow> setitem result key (JDict (deep_merge r v))
      | _ \<Rightarrow> setitem result key val)"

fun merged_value :: "json option \<Rightarrow> json \<Rightarrow> json" where
  "merged_value (Some (JDict b)) (JDict v) = JDict (deep_merge b v)"
| "merged_value old val = val"

text \<open>\<^verbatim>\<open>result.update(obj)\<close>, the shallow merge.\<close>

fun dict_update :: "dict \<Rightarrow> dict \<Rightarrow> dict" where
  "dict_update result [] = result"
| "dict_update result ((key, val) # obj) = dict_update (setitem result key val) obj"

text \<open>
  The first loop of \<^verbatim>\<open>merge_json\<close> (lines 135--143); \<open>i\<close> is the index
  \<^verbatim>\<open>enumerate\<close> gives. The first text that does not parse, or parses to something
  that is not a \<^verbatim>\<open>dict\<close>, ends the loop with its exception.
\<close>

fun parse_objects :: "nat \<Rightarrow> json option list \<Rightarrow> error + dict list" where
  "parse_objects i [] = Inr []"
| "parse_objects i (None # json_objects) = Inl (ValueError (InvalidJSONInObject (i + 1)))"
| "parse_objects i (Some (JDict data) # json_objects) =
     (case parse_objects (i + 1) json_objects of
        Inl e \<Rightarrow> Inl e
      | Inr parsed_objects \<Rightarrow> Inr (data # parsed_objects))"
| "parse_objects i (Some data # json_objects) = Inl (ValueError (NotAJSONObject (i + 1)))"

text \<open>The second loop (lines 146--151), from the \<open>result\<close> so far.\<close>

fun merge_objects :: "bool \<Rightarrow> dict \<Rightarrow> dict list \<Rightarrow> dict" where
  "merge_objects deep result [] = result"
| "merge_objects deep result (obj # parsed_objects) =
     merge_objects deep (if deep then deep_merge result obj else dict_update result obj)
       parsed_objects"

definition merge_json :: "json option list \<Rightarrow> bool \<Rightarrow> error + dict" where
  "merge_json json_objects deep =
     (if json_objects = [] then Inr []
      else (case parse_objects 0 json_objects of
              Inl e \<Rightarrow> Inl e
            | Inr parsed_objects \<Rightarrow> Inr (merge_objects deep [] parsed_objects)))"

subsection \<open>Strings\<close>

text \<open>
  \<^verbatim>\<open>s.startswith(p)\<close>, \<^verbatim>\<open>s.split(sep)\<close> for a separator of one character,
  \<^verbatim>\<open>s.rstrip(ch)\<close> for one character, and \<^verbatim>\<open>str(n)\<close> for a natural number.
  A split has at least one piece, so the last case of \<open>str_split\<close> is never taken;
  \<open>str_nat\<close> asks \<open>digit_char\<close> for digits below 10 only.
\<close>

definition startswith :: "string \<Rightarrow> string \<Rightarrow> bool" where
  "startswith s p = (take (length p) s = p)"

fun str_split :: "char \<Rightarrow> string \<Rightarrow> string list" where
  "str_split sep [] = [[]]"
| "str_split sep (c # s) =
     (if c = sep then [] # str_split sep s
      else (case str_split sep s of
              p # ps \<Rightarrow> (c # p) # ps
            | [] \<Rightarrow> [[c]]))"

definition str_rstrip :: "char \<Rightarrow> string \<Rightarrow> string" where
  "str_rstrip ch s = rev (dropWhile (\<lambda>c. c = ch) (rev s))"

definition digit_char :: "nat \<Rightarrow> char" where
  "digit_char d = ''0123456789'' ! d"

fun str_nat :: "nat \<Rightarrow> string" where
  "str_nat n =
     (if n < 10 then [digit_char n] else str_nat (n div 10) @ [digit_char (n mod 10)])"

declare str_nat.simps [simp del]

text \<open>
  \<^verbatim>\<open>int(s)\<close>: white space around the literal is dropped (tab, line feed, vertical
  tab, form feed, carriage return, space, and of the characters above 127 the next-line
  and no-break space), one sign may lead, and the digits may be grouped by single
  underscores. \<open>None\<close> is the \<^verbatim>\<open>ValueError\<close> of an invalid literal. (The
  interpreter's limit on the number of digits, 4300 unless configured otherwise, is
  not modelled.)
\<close>

definition is_space :: "char \<Rightarrow> bool" where
  "is_space c =
     (c \<in> set [CHR 0x09, CHR 0x0A, CHR 0x0B, CHR 0x0C, CHR 0x0D, CHR 0x20, CHR 0x85, CHR 0xA0])"

definition str_strip :: "string \<Rightarrow> string" where
  "str_strip s = rev (dropWhile is_space (rev (dropWhile is_space s)))"

definition is_digit :: "char \<Rightarrow> bool" where
  "is_digit c = (c \<in> set ''0123456789'')"

definition digit_val :: "char \<Rightarrow> nat" where
  "digit_val c = of_char c - 48"

fun digits_ok :: "string \<Rightarrow> bool" where
  "digits_ok [] = False"
| "digits_ok [c] = is_digit c"
| "digits_ok (c # d # s) =
     (is_digit c \<and> (if d = CHR ''_'' then digits_ok s else digits_ok (d # s)))"

definition decimal :: "string \<Rightarrow> nat" where
  "decimal s = foldl (\<lambda>n c. 10 * n + digit_val c) 0 [c \<leftarrow> s. c \<noteq> CHR ''_'']"

definition py_int :: "string \<Rightarrow> int option" where
  "py_int s =
     (let t = str_strip s;
          negative = (t \<noteq> [] \<and> hd t = CHR ''-'');
          body = (if t \<noteq> [] \<and> (hd t = CHR ''-'' \<or> hd t = CHR ''+'') then tl t else t)
      in if digits_ok body
         then Some (if negative then - int (decimal body) else int (decimal body))
         else None)"

subsection \<open>Path extraction (lines 167--200)\<close>

text \<open>
  \<^verbatim>\<open>current[key]\<close> for a string \<open>key\<close> and \<^verbatim>\<open>current[index]\<close> for an integer, on
  any value: a \<^verbatim>\<open>dict\<close> raises \<^verbatim>\<open>KeyError\<close> for a key it lacks (an integer is
  never a key of a parsed object); a \<^verbatim>\<open>list\<close> and a \<^verbatim>\<open>str\<close> take an integer,
  counted from the end when negative, and raise \<^verbatim>\<open>IndexError\<close> out of range; every
  other combination raises \<^verbatim>\<open>TypeError\<close>.
\<close>

fun subscript_str :: "json \<Rightarrow> string \<Rightarrow> error + json" where
  "subscript_str (JDict d) key = (case map_of d key of Some v \<Rightarrow> Inr v | None \<Rightarrow> Inl KeyError)"
| "subscript_str current key = Inl TypeError"

definition seq_index :: "nat \<Rightarrow> int \<Rightarrow> nat option" where
  "seq_index n i =
     (if 0 \<le> i \<and> i < int n then Some (nat i)
      else if - int n \<le> i \<and> i < 0 then Some (nat (int n + i))
      else None)"

fun subscript_int :: "json \<Rightarrow> int \<Rightarrow> error + json" where
  "subscript_int (JList xs) i =
     (case seq_index (length xs) i of Some j \<Rightarrow> Inr (xs ! j) | None \<Rightarrow> Inl IndexError)"
| "subscript_int (JStr s) i =
     (case seq_index (length s) i of Some j \<Rightarrow> Inr (JStr [s ! j]) | None \<Rightarrow> Inl IndexError)"
| "subscript_int (JDict d) i = Inl KeyError"
| "subscript_int current i = Inl TypeError"

text \<open>
  The body of the loop over \<open>parts\<close> (lines 183--195), up to the check for
  \<^verbatim>\<open>None\<close>. \<^verbatim>\<open>key, index_str = part.split('[')\<close> needs exactly two pieces; there are
  at least two, since \<open>part\<close> has a \<open>[\<close>.
\<close>

definition extract_part :: "json \<Rightarrow> string \<Rightarrow> error + json" where
  "extract_part current part =
     (if CHR ''['' \<in> set part \<and> CHR '']'' \<in> set part then
        (case str_split (CHR ''['') part of
           [key, index_str] \<Rightarrow>
             (case py_int (str_rstrip (CHR '']'') index_str) of
                None \<Rightarrow> Inl (ValueError (InvalidLiteralForInt (str_rstrip (CHR '']'') index_str)))
              | Some index \<Rightarrow>
                  (case (if key \<noteq> [] then subscript_str current key else Inr current) of
                     Inl e \<Rightarrow> Inl e
                   | Inr current' \<Rightarrow> subscript_int current' index))
         | _ \<Rightarrow> Inl (ValueError TooManyValuesToUnpack))
      else
        (case current of
           JDict d \<Rightarrow> Inr (case map_of d part of Some v \<Rightarrow> v | None \<Rightarrow> JNull)
         | _ \<Rightarrow> Inl (ValueError (CannotAccess part))))"

text \<open>The loop, with the check that ends each round (lines 197--198).\<close>

fun extract_parts :: "string \<Rightarrow> json \<Rightarrow> string list \<Rightarrow> error + json" where
  "extract_parts path current [] = Inr current"
| "extract_parts path current (part # parts) =
     (case extract_part current part of
        Inl e \<Rightarrow> Inl e
      | Inr current' \<Rightarrow>
          if current' = JNull then Inl (ValueError (PathNotFound path))
          else extract_parts path current' parts)"

definition extract_json_path :: "json option \<Rightarrow> string \<Rightarrow> error + json" where
  "extract_json_path json path =
     (case json of
        None \<Rightarrow> Inl (ValueError InvalidJSON)
      | Some data \<Rightarrow>
          (let path' = (if startswith path ''$.'' then drop 2 path else path)
           in extract_parts path' data (str_split (CHR ''.'') path')))"

subsection \<open>Comparison (lines 202--296)\<close>

text \<open>
  An entry of \<open>differences\<close> is a \<^verbatim>\<open>dict\<close> with the keys \<^verbatim>\<open>"type"\<close>, \<^verbatim>\<open>"path"\<close>
  and, depending on the type, \<^verbatim>\<open>"old_value"\<close> and \<^verbatim>\<open>"new_value"\<close>. A type name is
  a \<^verbatim>\<open>str\<close> and a length an \<^verbatim>\<open>int\<close>, so both are values as well.
\<close>

record difference =
  d_type :: string
  d_path :: string
  old_value :: "json option"
  new_value :: "json option"

text \<open>
  \<^verbatim>\<open>path or "root"\<close>, \<^verbatim>\<open>f"{path}.{key}" if path else key\<close>, and
  \<^verbatim>\<open>f"{path}[{i}]" if path else f"[{i}]"\<close>.
\<close>

definition or_root :: "string \<Rightarrow> string" where
  "or_root path = (if path = [] then ''root'' else path)"

definition key_path :: "string \<Rightarrow> string \<Rightarrow> string" where
  "key_path path key = (if path = [] then key else path @ ''.'' @ key)"

definition index_path :: "string \<Rightarrow> nat \<Rightarrow> string" where
  "index_path path i =
     (if path = [] then ''['' @ str_nat i @ '']'' else path @ ''['' @ str_nat i @ '']'')"

text \<open>
  Python does not fix the order in which a \<^verbatim>\<open>set\<close> of strings is iterated. The
  model iterates a set, given as the list of its elements, in the order of a ranking
  \<open>rank\<close> of the strings; \<open>rank\<close> is a parameter of the comparison, and the
  theorems hold for every ranking.
\<close>

definition set_iter :: "(string \<Rightarrow> nat) \<Rightarrow> string list \<Rightarrow> string list" where
  "set_iter rank keys = sort_key rank (remdups keys)"

lemma set_set_iter [simp]: "set (set_iter rank keys) = set keys"
  by (simp add: set_iter_def)

lemma size_getitem:
  "key \<in> fst ` set d \<Longrightarrow> size (getitem d key) < Suc (size_list (size_prod (\<lambda>x. 0) size) d)"
proof (induction d)
  case Nil
  then show ?case by simp
next
  case (Cons kv d)
  show ?case
  proof (cases "fst kv = key")
    case True
    then show ?thesis by (cases kv) (simp add: getitem_def)
  next
    case False
    with Cons.prems have "key \<in> fst ` set d" by auto
    from Cons.IH [OF this] False show ?thesis by (cases kv) (auto simp: getitem_def)
  qed
qed

lemma size_list_member: "x \<in> set xs \<Longrightarrow> size (x::json) < Suc (size_list size xs)"
  by (induction xs) auto

lemma in_enumerate_zipD: "(i, x, y) \<in> set (enumerate n (zip xs ys)) \<Longrightarrow> x \<in> set xs"
  by (auto simp: in_set_enumerate_eq dest: set_zip_leftD)

text \<open>
  \<^verbatim>\<open>_compare_values\<close>. The function appends to the list \<open>differences\<close> it is given;
  the model returns the entries it appends, in the order of the appends.
\<close>

function compare_values ::
  "(string \<Rightarrow> nat) \<Rightarrow> json \<Rightarrow> json \<Rightarrow> string \<Rightarrow> bool \<Rightarrow> difference list" where
  "compare_values rank val1 val2 path ignore_order =
    (if type_of val1 \<noteq> type_of val2 then
       [\<lparr>d_type = ''Type mismatch'', d_path = or_root path,
         old_value = Some (JStr (type_name (type_of val1))),
         new_value = Some (JStr (type_name (type_of val2)))\<rparr>]
     else
       (case (val1, val2) of
          (JDict d1, JDict d2) \<Rightarrow>
            (let keys1 = map fst d1; keys2 = map fst d2 in
               map (\<lambda>key. \<lparr>d_type = ''Key removed'', d_path = key_path path key,
                            old_value = Some (getitem d1 key), new_value = None\<rparr>)
                 (set_iter rank [key \<leftarrow> keys1. key \<notin> set keys2])
             @ map (\<lambda>key. \<lparr>d_type = ''Key added'', d_path = key_path path key,
                              old_value = None, new_value = Some (getitem d2 key)\<rparr>)
                 (set_iter rank [key \<leftarrow> keys2. key \<notin> set keys1])
             @ concat (map (\<lambda>key. compare_values rank (getitem d1 key) (getitem d2 key)
                                     (key_path path key) ignore_order)
                 (set_iter rank [key \<leftarrow> keys1. key \<in> set keys2])))
        | (JList l1, JList l2) \<Rightarrow>
            (if length l1 \<noteq> length l2 then
               [\<lparr>d_type = ''Array length mismatch'', d_path = or_root path,
                 old_value = Some (JInt (int (length l1))),
                 new_value = Some (JInt (int (length l2)))\<rparr>]
             else [])
            @ (if ignore_order then []
               else concat (map (\<lambda>(i, item1, item2).
                                   compare_values rank item1 item2 (index_path path i) ignore_order)
                      (enumerate 0 (zip l1 l2))))
        | _ \<Rightarrow>
            (if prim_ne val1 val2 then
               [\<lparr>d_type = ''Value changed'', d_path = or_root path,
                 old_value = Some val1, new_value = Some val2\<rparr>]
             else [])))"
  by pat_completeness auto
termination
  apply (relation "measure (\<lambda>(rank, val1, val2, path, ignore_order). size val1)")
    apply simp
  subgoal by (auto dest!: in_enumerate_zipD size_list_member)
  subgoal by (force intro!: size_getitem)
  done

declare compare_values.simps [simp del]

definition compare_json ::
  "(string \<Rightarrow> nat) \<Rightarrow> json option \<Rightarrow> json option \<Rightarrow> bool \<Rightarrow> error + difference list" where
  "compare_json rank json1 json2 ignore_order =
     (case (json1, json2) of
        (Some data1, Some data2) \<Rightarrow> Inr (compare_values rank data1 data2 [] ignore_order)
      | _ \<Rightarrow> Inl (ValueError InvalidJSON))"

subsection \<open>Notions used in the statements about the comparison\<close>

text \<open>
  The six kinds of a document value, as the specification counts them: both
  \<^verbatim>\<open>int\<close> and \<^verbatim>\<open>float\<close> are numbers.
\<close>

datatype kind = KNull | KBool | KNumber | KString | KArray | KObject

fun kind_of :: "json \<Rightarrow> kind" where
  "kind_of JNull = KNull"
| "kind_of (JBool b) = KBool"
| "kind_of (JInt n) = KNumber"
| "kind_of (JFloat x) = KNumber"
| "kind_of (JStr s) = KString"
| "kind_of (JList xs) = KArray"
| "kind_of (JDict d) = KObject"

text \<open>A value with no NaN anywhere in it.\<close>

fun nan_free :: "json \<Rightarrow> bool" where
  "nan_free (JFloat x) = (\<not> isnan x)"
| "nan_free (JList xs) = list_all nan_free xs"
| "nan_free (JDict d) = list_all (\<lambda>kv. nan_free (snd kv)) d"
| "nan_free v = True"

subsection \<open>Notions used in the statements about the extraction\<close>

text \<open>
  The path of the specification: a sequence of selectors, each a field name or an
  index, and the value a document holds at a path. A field selector resolves in an
  object that has the key, an index selector in an array that is long enough.
\<close>

datatype selector = Field string | Index nat

fun value_at :: "json \<Rightarrow> selector list \<Rightarrow> json option" where
  "value_at v [] = Some v"
| "value_at (JDict d) (Field name # sels) =
     (case map_of d name of Some v \<Rightarrow> value_at v sels | None \<Rightarrow> None)"
| "value_at (JList xs) (Index i # sels) =
     (if i < length xs then value_at (xs ! i) sels else None)"
| "value_at v (sel # sels) = None"

text \<open>
  The text of a path, by the grammar of the specification: segments separated by
  \<open>.\<close>, each a field name, a field name with a bracketed index behind it (select the
  field, then the index), or a bracketed index alone (the index applies to the current
  value). A field name of a path has none of the characters \<open>.\<close>, \<open>[\<close> and \<open>]\<close>.
\<close>

type_synonym segment = "string \<times> nat option"

fun selectors :: "segment \<Rightarrow> selector list" where
  "selectors (name, None) = [Field name]"
| "selectors (name, Some i) = (if name = [] then [Index i] else [Field name, Index i])"

fun segment_text :: "segment \<Rightarrow> string" where
  "segment_text (name, None) = name"
| "segment_text (name, Some i) = name @ ''['' @ str_nat i @ '']''"

fun join :: "string \<Rightarrow> string list \<Rightarrow> string" where
  "join sep [] = []"
| "join sep [p] = p"
| "join sep (p # q # ps) = p @ sep @ join sep (q # ps)"

definition path_text :: "segment list \<Rightarrow> string" where
  "path_text segs = join ''.'' (map segment_text segs)"

definition plain_name :: "string \<Rightarrow> bool" where
  "plain_name name = (CHR ''.'' \<notin> set name \<and> CHR ''['' \<notin> set name \<and> CHR '']'' \<notin> set name)"


section \<open>Properties of the merge\<close>

subsection \<open>Dictionary updates\<close>

lemma map_of_setitem: "map_of (setitem d key val) = (map_of d)(key \<mapsto> val)"
  by (induction d key val rule: setitem.induct) auto

lemma keys_setitem: "fst ` set (setitem d key val) = insert key (fst ` set d)"
  by (induction d key val rule: setitem.induct) auto

lemma setitem_fresh: "key \<notin> fst ` set d \<Longrightarrow> setitem d key val = d @ [(key, val)]"
  by (induction d key val rule: setitem.induct) auto

subsection \<open>The loop of \<open>deep_merge\<close>\<close>

lemma deep_merge_fold:
  "deep_merge dict1 dict2 = fold (\<lambda>(key, val) result. merge_item result key val) dict2 dict1"
  unfolding merge_item_def by (rule deep_merge.simps)

lemma merged_value_case:
  "merged_value old val =
     (case (old, val) of (Some (JDict b), JDict v) \<Rightarrow> JDict (deep_merge b v) | _ \<Rightarrow> val)"
  by (cases "(old, val)" rule: merged_value.cases) (auto split: json.splits option.splits)

lemma merge_item_setitem:
  "merge_item result key val = setitem result key (merged_value (map_of result key) val)"
  by (cases "(map_of result key, val)" rule: merged_value.cases)
    (auto simp: merge_item_def split: option.splits json.splits)

lemma map_of_merge_item:
  "map_of (merge_item result key val) =
     (map_of result)(key \<mapsto> merged_value (map_of result key) val)"
  by (simp add: merge_item_setitem map_of_setitem)

lemma keys_merge_item: "fst ` set (merge_item result key val) = insert key (fst ` set result)"
  by (simp add: merge_item_setitem keys_setitem)

lemma merge_item_fresh:
  assumes "key \<notin> fst ` set d"
  shows "merge_item d key val = d @ [(key, val)]"
proof -
  from assms have "map_of d key = None"
    by (simp add: map_of_eq_None_iff)
  with assms show ?thesis
    by (simp add: merge_item_setitem setitem_fresh)
qed

text \<open>
  What the loop leaves under a key \<open>k\<close>: the keys of \<open>dict2\<close> are distinct, so each
  is visited once, and the round for \<open>k\<close> reads what \<open>result\<close> held at the start.
\<close>

lemma fold_merge_item_lookup:
  "distinct (map fst dict2) \<Longrightarrow>
   map_of (fold (\<lambda>(key, val) result. merge_item result key val) dict2 result) k =
     (case map_of dict2 k of
        None \<Rightarrow> map_of result k
      | Some val \<Rightarrow> Some (merged_value (map_of result k) val))"
proof (induction dict2 arbitrary: result)
  case Nil
  then show ?case by simp
next
  case (Cons kv dict2)
  obtain key val where kv: "kv = (key, val)" by (cases kv)
  from Cons.prems kv have d: "distinct (map fst dict2)" and fresh: "key \<notin> fst ` set dict2"
    by auto
  from fresh have none: "map_of dict2 key = None"
    by (simp add: map_of_eq_None_iff)
  show ?case
    using Cons.IH [OF d, of "merge_item result key val"] none
    by (auto simp: kv map_of_merge_item split: option.splits)
qed

lemma fold_merge_item_keys:
  "fst ` set (fold (\<lambda>(key, val) result. merge_item result key val) dict2 result) =
     fst ` set result \<union> fst ` set dict2"
proof (induction dict2 arbitrary: result)
  case Nil
  then show ?case by simp
next
  case (Cons kv dict2)
  obtain key val where kv: "kv = (key, val)" by (cases kv)
  show ?case
    using Cons.IH [of "merge_item result key val"]
    by (simp add: kv keys_merge_item)
qed

lemma fold_merge_item_fresh:
  "distinct (map fst dict2) \<Longrightarrow> fst ` set dict2 \<inter> fst ` set result = {} \<Longrightarrow>
   fold (\<lambda>(key, val) result. merge_item result key val) dict2 result = result @ dict2"
proof (induction dict2 arbitrary: result)
  case Nil
  then show ?case by simp
next
  case (Cons kv dict2)
  obtain key val where kv: "kv = (key, val)" by (cases kv)
  from Cons.prems kv have fresh: "key \<notin> fst ` set result" by auto
  from Cons.prems kv have d: "distinct (map fst dict2)"
    and disj: "fst ` set dict2 \<inter> fst ` set (result @ [(key, val)]) = {}"
    by auto
  show ?case
    using Cons.IH [OF d disj] by (simp add: kv merge_item_fresh [OF fresh])
qed

lemma deep_merge_lookup:
  "distinct (map fst dict2) \<Longrightarrow>
   map_of (deep_merge dict1 dict2) k =
     (case map_of dict2 k of
        None \<Rightarrow> map_of dict1 k
      | Some val \<Rightarrow> Some (merged_value (map_of dict1 k) val))"
  by (simp add: deep_merge_fold fold_merge_item_lookup)

lemma deep_merge_empty: "distinct (map fst d) \<Longrightarrow> deep_merge [] d = d"
  using fold_merge_item_fresh [of d "[]"] by (simp add: deep_merge_fold)

subsection \<open>The loops of \<open>merge_json\<close>\<close>

lemma parse_objects_dicts: "parse_objects i (map (\<lambda>d. Some (JDict d)) ds) = Inr ds"
  by (induction ds arbitrary: i) auto

lemma parse_objects_not_dict:
  "type_of v \<noteq> DictType \<Longrightarrow>
   parse_objects i (map (\<lambda>d. Some (JDict d)) ds @ Some v # rest) =
     Inl (ValueError (NotAJSONObject (i + length ds + 1)))"
proof (induction ds arbitrary: i)
  case Nil
  then show ?case by (cases v) auto
next
  case (Cons d ds)
  from Cons.IH [OF Cons.prems, of "i + 1"] show ?case by simp
qed

lemma all_dicts:
  "list_all (\<lambda>v. type_of v = DictType) vs \<Longrightarrow> \<exists>ds. vs = map JDict ds"
proof (induction vs)
  case Nil
  then show ?case by simp
next
  case (Cons v vs)
  then obtain ds where "vs = map JDict ds" by auto
  moreover from Cons.prems obtain d where "v = JDict d" by (cases v) auto
  ultimately have "v # vs = map JDict (d # ds)" by simp
  then show ?case by (rule exI)
qed

lemma merge_objects_foldl: "merge_objects True result ds = foldl deep_merge result ds"
  by (induction ds arbitrary: result) auto

lemma merge_json_dicts:
  "merge_json (map (\<lambda>d. Some (JDict d)) ds) True = Inr (foldl deep_merge [] ds)"
  by (auto simp: merge_json_def parse_objects_dicts merge_objects_foldl)

subsection \<open>Claims about the merge\<close>

text \<open>
  C3. Deep merge of two objects \<open>base\<close> and \<open>overlay\<close>: for each key of \<open>overlay\<close>,
  if \<open>base\<close> has the key and both values are objects, the result holds their
  recursive merge under that key; otherwise it holds the value of \<open>overlay\<close> (an
  array, like any value that is not an object, replaces what was there). A key that
  only \<open>base\<close> has keeps its value, and the keys of the result are the keys of
  \<open>base\<close> together with those of \<open>overlay\<close>. The keys of \<open>overlay\<close> are distinct,
  as the keys of every \<^verbatim>\<open>dict\<close> are.
\<close>

theorem deep_merge_per_key:
  assumes "distinct (map fst overlay)"
  shows "(\<forall>key val. map_of overlay key = Some val \<longrightarrow>
            map_of (deep_merge base overlay) key =
              Some (case (map_of base key, val) of
                      (Some (JDict b), JDict v) \<Rightarrow> JDict (deep_merge b v)
                    | _ \<Rightarrow> val))
       \<and> (\<forall>key. map_of overlay key = None \<longrightarrow>
            map_of (deep_merge base overlay) key = map_of base key)
       \<and> fst ` set (deep_merge base overlay) = fst ` set base \<union> fst ` set overlay"
  using fold_merge_item_lookup [OF assms, of base]
  by (simp add: deep_merge_fold fold_merge_item_keys merged_value_case)

text \<open>
  At \<^verbatim>\<open>{"a": [1, 2], "b": {"x": 1}, "c": 0}\<close> and \<^verbatim>\<open>{"a": [3], "b": {"y": 2}}\<close>: the
  array is replaced, the objects are merged.
\<close>

theorem deep_merge_per_key_witness:
  "distinct (map fst [(''a'', JList [JInt 3]), (''b'', JDict [(''y'', JInt 2)])])
   \<and> map_of (deep_merge
         [(''a'', JList [JInt 1, JInt 2]), (''b'', JDict [(''x'', JInt 1)]), (''c'', JInt 0)]
         [(''a'', JList [JInt 3]), (''b'', JDict [(''y'', JInt 2)])]) ''a''
       = Some (JList [JInt 3])
   \<and> map_of (deep_merge
         [(''a'', JList [JInt 1, JInt 2]), (''b'', JDict [(''x'', JInt 1)]), (''c'', JInt 0)]
         [(''a'', JList [JInt 3]), (''b'', JDict [(''y'', JInt 2)])]) ''b''
       = Some (JDict [(''x'', JInt 1), (''y'', JInt 2)])
   \<and> fst ` set (deep_merge
         [(''a'', JList [JInt 1, JInt 2]), (''b'', JDict [(''x'', JInt 1)]), (''c'', JInt 0)]
         [(''a'', JList [JInt 3]), (''b'', JDict [(''y'', JInt 2)])])
       = {''a'', ''b'', ''c''}"
proof -
  have d: "distinct (map fst [(''a'', JList [JInt 3]), (''b'', JDict [(''y'', JInt 2)])])"
    by simp
  have m: "deep_merge [(''x'', JInt 1)] [(''y'', JInt 2)] = [(''x'', JInt 1), (''y'', JInt 2)]"
    by (simp add: deep_merge.simps)
  show ?thesis
    using d m
      deep_merge_per_key [OF d,
        of "[(''a'', JList [JInt 1, JInt 2]), (''b'', JDict [(''x'', JInt 1)]), (''c'', JInt 0)]"]
    by auto
qed

text \<open>
  C6. The merge of several documents is the left fold of \<open>deep_merge\<close> over them, in
  their order, from the empty object. So the last document wins: a value of it that
  is not an object is the value of the result under its key, whatever the earlier
  documents hold (the keys of a document being distinct); and
  \<^verbatim>\<open>merge([{"a": 1}, {"a": 2}])\<close> is \<^verbatim>\<open>{"a": 2}\<close>.
\<close>

theorem merge_json_left_fold:
  "merge_json (map (\<lambda>d. Some (JDict d)) ds) True = Inr (foldl deep_merge [] ds)
   \<and> (distinct (map fst d) \<and> map_of d key = Some val \<and> type_of val \<noteq> DictType \<longrightarrow>
        (\<exists>result. merge_json (map (\<lambda>d. Some (JDict d)) (ds @ [d])) True = Inr result
                \<and> map_of result key = Some val))
   \<and> merge_json [Some (JDict [(''a'', JInt 1)]), Some (JDict [(''a'', JInt 2)])] True
       = Inr [(''a'', JInt 2)]"
proof (intro conjI impI)
  show "merge_json (map (\<lambda>d. Some (JDict d)) ds) True = Inr (foldl deep_merge [] ds)"
    by (rule merge_json_dicts)
next
  assume a: "distinct (map fst d) \<and> map_of d key = Some val \<and> type_of val \<noteq> DictType"
  then have "merged_value old val = val" for old
    by (cases "(old, val)" rule: merged_value.cases) auto
  with a have "map_of (deep_merge (foldl deep_merge [] ds) d) key = Some val"
    by (simp add: deep_merge_lookup)
  then show "\<exists>result. merge_json (map (\<lambda>d. Some (JDict d)) (ds @ [d])) True = Inr result
                \<and> map_of result key = Some val"
    using merge_json_dicts [of "ds @ [d]"] by simp
next
  show "merge_json [Some (JDict [(''a'', JInt 1)]), Some (JDict [(''a'', JInt 2)])] True
          = Inr [(''a'', JInt 2)]"
    by (simp add: merge_json_def deep_merge.simps)
qed

theorem merge_json_left_fold_witness:
  "distinct (map fst [(''a'', JInt 2), (''b'', JNull)])
   \<and> map_of [(''a'', JInt 2), (''b'', JNull)] ''a'' = Some (JInt 2)
   \<and> type_of (JInt 2) \<noteq> DictType
   \<and> (\<exists>result.
        merge_json (map (\<lambda>d. Some (JDict d))
          ([[(''a'', JDict [(''x'', JInt 1)])], [(''a'', JInt 1)]] @ [[(''a'', JInt 2), (''b'', JNull)]]))
          True = Inr result
        \<and> map_of result ''a'' = Some (JInt 2))"
  using merge_json_left_fold
    [of "[[(''a'', JDict [(''x'', JInt 1)])], [(''a'', JInt 1)]]"
        "[(''a'', JInt 2), (''b'', JNull)]" "''a''" "JInt 2"]
  by simp

text \<open>
  C9. When one of the documents is not an object, the merge fails with the
  \<^verbatim>\<open>ValueError\<close> that names the position, counted from 1, of a document that is
  not an object, and there is no merged result. The document named is the first that
  is not an object: with objects before it, the merge fails at it whatever follows,
  be it a text that does not parse.
\<close>

theorem merge_json_not_object:
  "(type_of v \<noteq> DictType \<longrightarrow>
      merge_json (map (\<lambda>d. Some (JDict d)) ds @ Some v # rest) deep =
        Inl (ValueError (NotAJSONObject (length ds + 1))))
   \<and> (list_ex (\<lambda>v. type_of v \<noteq> DictType) docs \<longrightarrow>
        (\<exists>i < length docs. type_of (docs ! i) \<noteq> DictType
           \<and> merge_json (map Some docs) deep = Inl (ValueError (NotAJSONObject (i + 1)))))"
proof (intro conjI impI)
  assume "type_of v \<noteq> DictType"
  from parse_objects_not_dict [OF this, of 0 ds rest]
  show "merge_json (map (\<lambda>d. Some (JDict d)) ds @ Some v # rest) deep =
        Inl (ValueError (NotAJSONObject (length ds + 1)))"
    by (simp add: merge_json_def)
next
  let ?dict = "\<lambda>v. type_of v = DictType"
  assume ex: "list_ex (\<lambda>v. type_of v \<noteq> DictType) docs"
  then have "dropWhile ?dict docs \<noteq> []"
    by (auto simp: list_ex_iff)
  then obtain w ws where dw: "dropWhile ?dict docs = w # ws"
    by (cases "dropWhile ?dict docs") auto
  then have w: "type_of w \<noteq> DictType"
    using hd_dropWhile [of ?dict docs] by auto
  have "list_all ?dict (takeWhile ?dict docs)"
    by (auto simp: list_all_iff dest: set_takeWhileD)
  then obtain ds where ds: "takeWhile ?dict docs = map JDict ds"
    using all_dicts by blast
  have split: "docs = map JDict ds @ w # ws"
    using takeWhile_dropWhile_id [of ?dict docs] by (simp add: ds dw)
  have i: "length ds < length docs" "docs ! length ds = w"
    by (simp_all add: split nth_append)
  have "map Some docs = map (\<lambda>d. Some (JDict d)) ds @ Some w # map Some ws"
    by (simp add: split)
  with parse_objects_not_dict [OF w, of 0 ds "map Some ws"]
  have "merge_json (map Some docs) deep = Inl (ValueError (NotAJSONObject (length ds + 1)))"
    by (simp add: merge_json_def)
  with i w show "\<exists>i < length docs. type_of (docs ! i) \<noteq> DictType
           \<and> merge_json (map Some docs) deep = Inl (ValueError (NotAJSONObject (i + 1)))"
    by blast
qed

text \<open>
  An array after one object, with a number and a text that does not parse behind it;
  and a string after one object, under the shallow merge.
\<close>

theorem merge_json_not_object_witness:
  "type_of (JList [JInt 1]) \<noteq> DictType
   \<and> merge_json (map (\<lambda>d. Some (JDict d)) [[(''a'', JInt 1)]]
                  @ Some (JList [JInt 1]) # [Some (JInt 7), None]) True
       = Inl (ValueError (NotAJSONObject 2))
   \<and> list_ex (\<lambda>v. type_of v \<noteq> DictType) [JDict [], JStr ''x'', JInt 3]
   \<and> (\<exists>i < length [JDict [], JStr ''x'', JInt 3].
          type_of ([JDict [], JStr ''x'', JInt 3] ! i) \<noteq> DictType
          \<and> merge_json (map Some [JDict [], JStr ''x'', JInt 3]) False
              = Inl (ValueError (NotAJSONObject (i + 1))))"
proof -
  have h: "type_of (JList [JInt 1]) \<noteq> DictType"
    "list_ex (\<lambda>v. type_of v \<noteq> DictType) [JDict [], JStr ''x'', JInt 3]"
    by simp_all
  show ?thesis
    using h
      merge_json_not_object [of "JList [JInt 1]" "[[(''a'', JInt 1)]]" "[Some (JInt 7), None]" True
        "[JDict [], JStr ''x'', JInt 3]"]
      merge_json_not_object [of "JList [JInt 1]" "[[(''a'', JInt 1)]]" "[Some (JInt 7), None]" False
        "[JDict [], JStr ''x'', JInt 3]"]
    by simp
qed

text \<open>
  C10. Merging no documents succeeds with the empty object. The empty object is a
  left identity of the merge: merged with an object (of distinct keys) it gives that
  object, so the merge of a single document is the document.
\<close>

theorem merge_json_empty:
  "merge_json [] deep = Inr []
   \<and> (distinct (map fst d) \<longrightarrow>
        deep_merge [] d = d \<and> merge_json [Some (JDict d)] True = Inr d)"
  by (simp add: merge_json_def deep_merge_empty)

theorem merge_json_empty_witness:
  "distinct (map fst [(''a'', JInt 1), (''b'', JList [])])
   \<and> merge_json [] True = Inr []
   \<and> deep_merge [] [(''a'', JInt 1), (''b'', JList [])] = [(''a'', JInt 1), (''b'', JList [])]
   \<and> merge_json [Some (JDict [(''a'', JInt 1), (''b'', JList [])])] True
       = Inr [(''a'', JInt 1), (''b'', JList [])]"
  using merge_json_empty [of True "[(''a'', JInt 1), (''b'', JList [])]"]
  by simp

section \<open>Properties of the comparison\<close>

subsection \<open>The branches of \<open>compare_values\<close>\<close>

lemma compare_values_mismatch:
  "type_of val1 \<noteq> type_of val2 \<Longrightarrow>
   compare_values rank val1 val2 path ignore_order =
     [\<lparr>d_type = ''Type mismatch'', d_path = or_root path,
       old_value = Some (JStr (type_name (type_of val1))),
       new_value = Some (JStr (type_name (type_of val2)))\<rparr>]"
  by (simp add: compare_values.simps)

lemma compare_values_dict:
  "compare_values rank (JDict d1) (JDict d2) path ignore_order =
     map (\<lambda>key. \<lparr>d_type = ''Key removed'', d_path = key_path path key,
                  old_value = Some (getitem d1 key), new_value = None\<rparr>)
       (set_iter rank [key \<leftarrow> map fst d1. key \<notin> set (map fst d2)])
     @ map (\<lambda>key. \<lparr>d_type = ''Key added'', d_path = key_path path key,
                    old_value = None, new_value = Some (getitem d2 key)\<rparr>)
       (set_iter rank [key \<leftarrow> map fst d2. key \<notin> set (map fst d1)])
     @ concat (map (\<lambda>key. compare_values rank (getitem d1 key) (getitem d2 key)
                             (key_path path key) ignore_order)
         (set_iter rank [key \<leftarrow> map fst d1. key \<in> set (map fst d2)]))"
  by (subst compare_values.simps) (simp add: Let_def)

lemma compare_values_list:
  "compare_values rank (JList l1) (JList l2) path ignore_order =
     (if length l1 \<noteq> length l2 then
        [\<lparr>d_type = ''Array length mismatch'', d_path = or_root path,
          old_value = Some (JInt (int (length l1))),
          new_value = Some (JInt (int (length l2)))\<rparr>]
      else [])
     @ (if ignore_order then []
        else concat (map (\<lambda>(i, item1, item2).
                            compare_values rank item1 item2 (index_path path i) ignore_order)
               (enumerate 0 (zip l1 l2))))"
  by (subst compare_values.simps) simp

lemma compare_values_prim:
  "type_of val1 = type_of val2 \<Longrightarrow> type_of val1 \<noteq> DictType \<Longrightarrow> type_of val1 \<noteq> ListType \<Longrightarrow>
   compare_values rank val1 val2 path ignore_order =
     (if prim_ne val1 val2 then
        [\<lparr>d_type = ''Value changed'', d_path = or_root path,
          old_value = Some val1, new_value = Some val2\<rparr>]
      else [])"
  by (subst compare_values.simps) (cases val1; cases val2; simp)

lemma nan_free_getitem:
  "list_all (\<lambda>kv. nan_free (snd kv)) d \<Longrightarrow> key \<in> fst ` set d \<Longrightarrow> nan_free (getitem d key)"
  by (induction d) (auto simp: getitem_def)

lemma concat_map_Nil: "(\<And>x. x \<in> set xs \<Longrightarrow> f x = []) \<Longrightarrow> concat (map f xs) = []"
  by (induction xs) auto

lemma enumerate_zip_same:
  "(i, a, b) \<in> set (enumerate n (zip xs xs)) \<Longrightarrow> a = b \<and> a \<in> set xs"
  by (auto simp: in_set_enumerate_eq zip_same)

lemma float_eq_refl: "\<not> isnan x \<Longrightarrow> float_eq x x"
  by (simp add: float_eq_def)

lemma compare_values_same:
  "nan_free x \<Longrightarrow> compare_values rank x x path ignore_order = []"
proof (induction x arbitrary: path)
  case (JList xs)
  have "compare_values rank a b (index_path path i) ignore_order = []"
    if "(i, a, b) \<in> set (enumerate 0 (zip xs xs))" for i a b
  proof -
    from enumerate_zip_same [OF that] have ab: "a = b" "a \<in> set xs" by auto
    with JList.prems have "nan_free a" by (simp add: list_all_iff)
    with JList.IH [OF ab(2)] ab show ?thesis by simp
  qed
  then have "concat (map (\<lambda>(i, item1, item2).
                 compare_values rank item1 item2 (index_path path i) ignore_order)
               (enumerate 0 (zip xs xs))) = []"
    by (intro concat_map_Nil) auto
  then show ?case by (cases ignore_order) (simp_all add: compare_values_list del: concat_eq_Nil_conv)
next
  case (JDict d)
  have "compare_values rank (getitem d key) (getitem d key) (key_path path key) ignore_order = []"
    if "key \<in> fst ` set d" for key
  proof -
    from that obtain v where kv: "(key, v) \<in> set d" by auto
    have g: "nan_free (getitem d key)"
      using JDict.prems that by (simp add: nan_free_getitem)
    from that have "map_of d key \<noteq> None" by (simp add: map_of_eq_None_iff)
    then obtain w where w: "map_of d key = Some w" by auto
    then have "(key, w) \<in> set d" by (rule map_of_SomeD)
    from JDict.IH [OF this, of w] g w show ?thesis by (simp add: getitem_def)
  qed
  then have "concat (map (\<lambda>key. compare_values rank (getitem d key) (getitem d key)
                 (key_path path key) ignore_order)
               (set_iter rank [key \<leftarrow> map fst d. key \<in> set (map fst d)])) = []"
    by (intro concat_map_Nil) auto
  then show ?case by (simp add: compare_values_dict set_iter_def del: concat_eq_Nil_conv)
qed (simp_all add: compare_values_prim float_eq_refl)

lemma kind_type: "kind_of a \<noteq> kind_of b \<Longrightarrow> type_of a \<noteq> type_of b"
  by (cases a; cases b; simp)

lemma filter_concat_map:
  "filter P (concat (map f xs)) = concat (map (\<lambda>x. filter P (f x)) xs)"
  by (induction xs) auto

lemma mismatches_same_type:
  assumes "type_of val1 = type_of val2"
  shows "[e \<leftarrow> compare_values rank val1 val2 path ignore_order. d_type e = ''Type mismatch''] =
     (case (val1, val2) of
        (JDict d1, JDict d2) \<Rightarrow>
          concat (map (\<lambda>key. [e \<leftarrow> compare_values rank (getitem d1 key) (getitem d2 key)
                                     (key_path path key) ignore_order.
                              d_type e = ''Type mismatch''])
            (set_iter rank [key \<leftarrow> map fst d1. key \<in> set (map fst d2)]))
      | (JList l1, JList l2) \<Rightarrow>
          (if ignore_order then []
           else concat (map (\<lambda>(i, item1, item2).
                               [e \<leftarrow> compare_values rank item1 item2 (index_path path i)
                                      ignore_order.
                                d_type e = ''Type mismatch''])
                  (enumerate 0 (zip l1 l2))))
      | _ \<Rightarrow> [])"
proof (cases val1)
  case (JList l1)
  with assms obtain l2 where v2: "val2 = JList l2" by (cases val2) auto
  show ?thesis
    by (simp add: JList v2 compare_values_list filter_concat_map split_def)
next
  case (JDict d1)
  with assms obtain d2 where v2: "val2 = JDict d2" by (cases val2) auto
  show ?thesis
    by (simp add: JDict v2 compare_values_dict filter_concat_map filter_map comp_def)
qed (use assms in \<open>cases val2; simp add: compare_values_prim\<close>)+

subsection \<open>Claims about the comparison\<close>

text \<open>
  C4, as the code has it. At every path, the root included, a \<open>Type mismatch\<close>
  entry is emitted for the pair of values compared there exactly when their Python
  types differ, where the types are \<^verbatim>\<open>NoneType\<close>, \<^verbatim>\<open>bool\<close>, \<^verbatim>\<open>int\<close>,
  \<^verbatim>\<open>float\<close>, \<^verbatim>\<open>str\<close>, \<^verbatim>\<open>list\<close> and \<^verbatim>\<open>dict\<close>. When the types differ,
  that entry is the whole result for the pair. When they agree, the pair itself
  contributes no \<open>Type mismatch\<close> entry: those of the result are exactly those of
  the comparisons of the members (the values under the shared keys of two objects, the
  paired elements of two arrays unless \<open>ignore_order\<close> is set), and there are none
  for two values that are neither objects nor arrays. Hence two \<^verbatim>\<open>int\<close>s, and two
  \<^verbatim>\<open>float\<close>s, never give a \<open>Type mismatch\<close>, and give no entry at all when they
  are equal.
\<close>

theorem type_mismatch_by_python_type:
  "(type_of val1 \<noteq> type_of val2 \<longrightarrow>
      compare_values rank val1 val2 path ignore_order =
        [\<lparr>d_type = ''Type mismatch'', d_path = or_root path,
          old_value = Some (JStr (type_name (type_of val1))),
          new_value = Some (JStr (type_name (type_of val2)))\<rparr>])
   \<and> (type_of val1 = type_of val2 \<longrightarrow>
        [e \<leftarrow> compare_values rank val1 val2 path ignore_order. d_type e = ''Type mismatch''] =
          (case (val1, val2) of
             (JDict d1, JDict d2) \<Rightarrow>
               concat (map (\<lambda>key. [e \<leftarrow> compare_values rank (getitem d1 key) (getitem d2 key)
                                          (key_path path key) ignore_order.
                                   d_type e = ''Type mismatch''])
                 (set_iter rank [key \<leftarrow> map fst d1. key \<in> set (map fst d2)]))
           | (JList l1, JList l2) \<Rightarrow>
               (if ignore_order then []
                else concat (map (\<lambda>(i, item1, item2).
                                    [e \<leftarrow> compare_values rank item1 item2 (index_path path i)
                                           ignore_order.
                                     d_type e = ''Type mismatch''])
                       (enumerate 0 (zip l1 l2))))
           | _ \<Rightarrow> []))
   \<and> compare_values rank (JInt m) (JInt n) path ignore_order =
        (if m = n then []
         else [\<lparr>d_type = ''Value changed'', d_path = or_root path,
                 old_value = Some (JInt m), new_value = Some (JInt n)\<rparr>])
   \<and> compare_values rank (JFloat x) (JFloat y) path ignore_order =
        (if float_eq x y then []
         else [\<lparr>d_type = ''Value changed'', d_path = or_root path,
                 old_value = Some (JFloat x), new_value = Some (JFloat y)\<rparr>])"
  using compare_values_mismatch [of val1 val2 rank path ignore_order]
    mismatches_same_type [of val1 val2 rank path ignore_order]
  by (simp add: compare_values_prim)

text \<open>
  C4 as stated fails: \<^verbatim>\<open>1\<close> and \<^verbatim>\<open>1.0\<close> are both numbers, and numerically equal,
  yet comparing them gives a \<open>Type mismatch\<close> entry, since \<^verbatim>\<open>type(1)\<close> is \<^verbatim>\<open>int\<close>
  and \<^verbatim>\<open>type(1.0)\<close> is \<^verbatim>\<open>float\<close>.
\<close>

theorem int_float_counterexample:
  "kind_of (JInt 1) = kind_of (JFloat 0x3FF0000000000000)
   \<and> compare_json length (Some (JInt 1)) (Some (JFloat 0x3FF0000000000000)) False =
       Inr [\<lparr>d_type = ''Type mismatch'', d_path = ''root'',
              old_value = Some (JStr ''int''), new_value = Some (JStr ''float'')\<rparr>]"
  by (simp add: compare_json_def compare_values_mismatch or_root_def)

text \<open>
  At the root: \<^verbatim>\<open>1\<close> against \<^verbatim>\<open>1.0\<close>; \<^verbatim>\<open>[1]\<close> against \<^verbatim>\<open>["x"]\<close>, two arrays
  whose only \<open>Type mismatch\<close> is that of their elements; \<^verbatim>\<open>"a"\<close> against \<^verbatim>\<open>"b"\<close>,
  with none; and \<^verbatim>\<open>1.0\<close> against itself.
\<close>

theorem type_mismatch_by_python_type_witness:
  "type_of (JInt 1) \<noteq> type_of (JFloat 0x3FF0000000000000)
   \<and> compare_values length (JInt 1) (JFloat 0x3FF0000000000000) [] False =
       [\<lparr>d_type = ''Type mismatch'', d_path = ''root'',
         old_value = Some (JStr ''int''), new_value = Some (JStr ''float'')\<rparr>]
   \<and> type_of (JList [JInt 1]) = type_of (JList [JStr ''x''])
   \<and> [e \<leftarrow> compare_values length (JList [JInt 1]) (JList [JStr ''x'']) [] False.
        d_type e = ''Type mismatch''] =
       [e \<leftarrow> compare_values length (JInt 1) (JStr ''x'') ''[0]'' False.
        d_type e = ''Type mismatch'']
   \<and> type_of (JStr ''a'') = type_of (JStr ''b'')
   \<and> [e \<leftarrow> compare_values length (JStr ''a'') (JStr ''b'') [] False.
        d_type e = ''Type mismatch''] = []
   \<and> compare_values length (JFloat 0x3FF0000000000000) (JFloat 0x3FF0000000000000) [] False = []"
proof -
  have i: "index_path [] 0 = ''[0]''"
    by (simp add: index_path_def str_nat.simps digit_char_def)
  have l: "[e \<leftarrow> compare_values length (JList [JInt 1]) (JList [JStr ''x'']) [] False.
        d_type e = ''Type mismatch''] =
       [e \<leftarrow> compare_values length (JInt 1) (JStr ''x'') ''[0]'' False.
        d_type e = ''Type mismatch'']"
    using type_mismatch_by_python_type [of "JList [JInt 1]" "JList [JStr ''x'']" length "[]" False 1 1
      "0x3FF0000000000000" "0x3FF0000000000000"]
    by (simp add: enumerate_eq_zip i)
  show ?thesis
    using l
      type_mismatch_by_python_type [of "JInt 1" "JFloat 0x3FF0000000000000" length "[]" False 1 1
        "0x3FF0000000000000" "0x3FF0000000000000"]
      type_mismatch_by_python_type [of "JStr ''a''" "JStr ''b''" length "[]" False 1 1
        "0x3FF0000000000000" "0x3FF0000000000000"]
    by (simp add: or_root_def float_eq_def isnan_def)
qed

text \<open>
  C7, as the code has it. Comparing a value with itself gives no entry, provided no
  NaN occurs in the value.
\<close>

theorem same_value_no_difference:
  assumes "nan_free x"
  shows "compare_values rank x x path ignore_order = []
         \<and> compare_json rank (Some x) (Some x) ignore_order = Inr []"
  using assms by (simp add: compare_json_def compare_values_same)

text \<open>
  C7 as stated fails at the value \<^verbatim>\<open>NaN\<close>, which \<^verbatim>\<open>json.loads\<close> accepts:
  \<^verbatim>\<open>val1 != val2\<close> is true of a NaN and itself, so the comparison reports
  \<open>Value changed\<close>.
\<close>

theorem nan_counterexample:
  "compare_json length (Some (JFloat 0x7FF8000000000000)) (Some (JFloat 0x7FF8000000000000)) False =
     Inr [\<lparr>d_type = ''Value changed'', d_path = ''root'',
            old_value = Some (JFloat 0x7FF8000000000000),
            new_value = Some (JFloat 0x7FF8000000000000)\<rparr>]"
  by (simp add: compare_json_def compare_values_prim or_root_def float_eq_def isnan_def)

theorem same_value_no_difference_witness:
  "nan_free (JDict [(''a'', JList [JInt 1, JFloat 0x3FF0000000000000, JNull]), (''b'', JStr ''x'')])
   \<and> compare_json length
        (Some (JDict [(''a'', JList [JInt 1, JFloat 0x3FF0000000000000, JNull]), (''b'', JStr ''x'')]))
        (Some (JDict [(''a'', JList [JInt 1, JFloat 0x3FF0000000000000, JNull]), (''b'', JStr ''x'')]))
        False = Inr []"
proof -
  have h: "nan_free (JDict [(''a'', JList [JInt 1, JFloat 0x3FF0000000000000, JNull]), (''b'', JStr ''x'')])"
    by (simp add: isnan_def)
  show ?thesis
    using h same_value_no_difference [OF h, of length "[]" False] by simp
qed

text \<open>
  C5. With \<open>ignore_order\<close> set, comparing two arrays checks their lengths and
  nothing else: the result is the one \<open>Array length mismatch\<close> entry when the
  lengths differ and empty when they agree, whatever the arrays hold. When the lengths
  differ that entry is emitted, first, with \<open>ignore_order\<close> or without. Comparing
  \<^verbatim>\<open>{"a": [1, 2]}\<close> with \<^verbatim>\<open>{"a": [1, 2, 3]}\<close> under \<open>ignore_order\<close> gives exactly
  one entry, the \<open>Array length mismatch\<close> at \<open>a\<close>.
\<close>

theorem array_length_check:
  "compare_values rank (JList l1) (JList l2) path True =
     (if length l1 \<noteq> length l2 then
        [\<lparr>d_type = ''Array length mismatch'', d_path = or_root path,
          old_value = Some (JInt (int (length l1))),
          new_value = Some (JInt (int (length l2)))\<rparr>]
      else [])
   \<and> (length l1 \<noteq> length l2 \<longrightarrow>
        (\<exists>rest. compare_values rank (JList l1) (JList l2) path ignore_order =
           \<lparr>d_type = ''Array length mismatch'', d_path = or_root path,
             old_value = Some (JInt (int (length l1))),
             new_value = Some (JInt (int (length l2)))\<rparr> # rest))
   \<and> compare_json rank (Some (JDict [(''a'', JList [JInt 1, JInt 2])]))
        (Some (JDict [(''a'', JList [JInt 1, JInt 2, JInt 3])])) True =
       Inr [\<lparr>d_type = ''Array length mismatch'', d_path = ''a'',
              old_value = Some (JInt 2), new_value = Some (JInt 3)\<rparr>]"
  by (simp add: compare_values_list compare_json_def compare_values_dict set_iter_def
      getitem_def key_path_def or_root_def)

theorem array_length_check_witness:
  "length [JInt 1, JInt 2] \<noteq> length [JInt 2, JStr ''x'', JInt 3]
   \<and> (\<exists>rest. compare_values length (JList [JInt 1, JInt 2]) (JList [JInt 2, JStr ''x'', JInt 3]) ''a'' False =
           \<lparr>d_type = ''Array length mismatch'', d_path = ''a'',
             old_value = Some (JInt 2), new_value = Some (JInt 3)\<rparr> # rest)
   \<and> compare_values length (JList [JInt 1, JInt 2]) (JList [JInt 2, JStr ''x'']) ''a'' True = []"
  using array_length_check [of length "[JInt 1, JInt 2]" "[JInt 2, JStr ''x'', JInt 3]" "''a''" False]
    array_length_check [of length "[JInt 1, JInt 2]" "[JInt 2, JStr ''x'']" "''a''" False]
  by (simp add: or_root_def)

text \<open>
  C8. When the two values compared at a path are of different kinds, the result for
  that pair is exactly one \<open>Type mismatch\<close> entry, at that path: nothing below it
  is compared. Comparing \<^verbatim>\<open>{"a": 1}\<close> with \<^verbatim>\<open>{"a": {"x": 1}}\<close> gives exactly one
  entry, the \<open>Type mismatch\<close> at \<open>a\<close>.
\<close>

theorem kind_mismatch_stops:
  "(kind_of val1 \<noteq> kind_of val2 \<longrightarrow>
      compare_values rank val1 val2 path ignore_order =
        [\<lparr>d_type = ''Type mismatch'', d_path = or_root path,
          old_value = Some (JStr (type_name (type_of val1))),
          new_value = Some (JStr (type_name (type_of val2)))\<rparr>])
   \<and> compare_json rank (Some (JDict [(''a'', JInt 1)]))
        (Some (JDict [(''a'', JDict [(''x'', JInt 1)])])) ignore_order =
       Inr [\<lparr>d_type = ''Type mismatch'', d_path = ''a'',
              old_value = Some (JStr ''int''), new_value = Some (JStr ''dict'')\<rparr>]"
  by (simp add: kind_type compare_values_mismatch compare_json_def compare_values_dict
      set_iter_def getitem_def key_path_def or_root_def)

theorem kind_mismatch_stops_witness:
  "kind_of (JList [JInt 1, JInt 2]) \<noteq> kind_of (JDict [(''x'', JList [])])
   \<and> compare_values length (JList [JInt 1, JInt 2]) (JDict [(''x'', JList [])]) ''a.b'' False =
        [\<lparr>d_type = ''Type mismatch'', d_path = ''a.b'',
          old_value = Some (JStr ''list''), new_value = Some (JStr ''dict'')\<rparr>]"
  using kind_mismatch_stops [of "JList [JInt 1, JInt 2]" "JDict [(''x'', JList [])]" length "''a.b''" False]
  by (simp add: or_root_def)

section \<open>Properties of the path extraction\<close>

subsection \<open>Splitting, and reading an index back\<close>

lemma str_split_no_sep: "sep \<notin> set p \<Longrightarrow> str_split sep p = [p]"
  by (induction p) auto

lemma str_split_append: "sep \<notin> set p \<Longrightarrow> str_split sep (p @ sep # rest) = p # str_split sep rest"
  by (induction p) auto

lemma str_split_join:
  "ps \<noteq> [] \<Longrightarrow> list_all (\<lambda>p. sep \<notin> set p) ps \<Longrightarrow> str_split sep (join [sep] ps) = ps"
  by (induction "[sep]" ps rule: join.induct) (auto simp: str_split_no_sep str_split_append)

lemma digit_char_digit: "d < 10 \<Longrightarrow> is_digit (digit_char d) \<and> digit_val (digit_char d) = d"
proof -
  assume "d < 10"
  then have "d = 0 \<or> d = 1 \<or> d = 2 \<or> d = 3 \<or> d = 4 \<or> d = 5 \<or> d = 6 \<or> d = 7 \<or> d = 8 \<or> d = 9"
    by presburger
  then show ?thesis
    by (elim disjE) (simp_all add: digit_char_def is_digit_def digit_val_def)
qed

lemma str_nat_digits: "list_all is_digit (str_nat n)"
proof (induction n rule: str_nat.induct)
  case (1 n)
  show ?case
  proof (cases "n < 10")
    case True
    then show ?thesis by (subst str_nat.simps) (simp add: digit_char_digit)
  next
    case False
    with 1 show ?thesis by (subst str_nat.simps) (simp add: digit_char_digit)
  qed
qed

lemma str_nat_nonempty: "str_nat n \<noteq> []"
  by (subst str_nat.simps) simp

lemma foldl_str_nat: "foldl (\<lambda>n c. 10 * n + digit_val c) 0 (str_nat n) = n"
proof (induction n rule: str_nat.induct)
  case (1 n)
  show ?case
  proof (cases "n < 10")
    case True
    then show ?thesis by (subst str_nat.simps) (simp add: digit_char_digit)
  next
    case False
    with 1 show ?thesis by (subst str_nat.simps) (simp add: digit_char_digit)
  qed
qed

lemma is_digit_cases: "is_digit c \<Longrightarrow> \<not> is_space c \<and> c \<noteq> CHR ''-'' \<and> c \<noteq> CHR ''+'' \<and> c \<noteq> CHR ''_''
   \<and> c \<noteq> CHR ''.'' \<and> c \<noteq> CHR ''['' \<and> c \<noteq> CHR '']''"
  by (auto simp: is_digit_def is_space_def)

lemma digits_ok_digits: "s \<noteq> [] \<Longrightarrow> list_all is_digit s \<Longrightarrow> digits_ok s"
  by (induction s rule: digits_ok.induct) (auto simp: is_digit_cases)

lemma digits_no_underscore: "list_all is_digit s \<Longrightarrow> [c \<leftarrow> s. c \<noteq> CHR ''_''] = s"
  by (induction s) (auto simp: is_digit_cases)

lemma str_strip_digits: "list_all is_digit s \<Longrightarrow> str_strip s = s"
proof (cases "s = []")
  case True
  then show ?thesis by (simp add: str_strip_def)
next
  case False
  assume d: "list_all is_digit s"
  from False have "hd s \<in> set s" "last s \<in> set s" by simp_all
  with d have "\<not> is_space (hd s)" "\<not> is_space (last s)"
    by (simp_all add: list_all_iff is_digit_cases)
  then have "dropWhile is_space s = s" "dropWhile is_space (rev s) = rev s"
    by (simp_all add: dropWhile_eq_self_iff hd_rev)
  then show ?thesis by (simp add: str_strip_def)
qed

lemma py_int_str_nat: "py_int (str_nat n) = Some (int n)"
proof -
  have d: "list_all is_digit (str_nat n)" by (rule str_nat_digits)
  have ne: "str_nat n \<noteq> []" by (rule str_nat_nonempty)
  from d ne have hd: "hd (str_nat n) \<noteq> CHR ''-''" "hd (str_nat n) \<noteq> CHR ''+''"
    by (cases "str_nat n"; simp add: is_digit_cases)+
  show ?thesis
    using hd ne
    by (simp add: py_int_def Let_def str_strip_digits [OF d] digits_ok_digits [OF ne d]
        decimal_def digits_no_underscore [OF d] foldl_str_nat)
qed

lemma str_rstrip_index: "str_rstrip (CHR '']'') (str_nat n @ '']'') = str_nat n"
proof -
  have d: "list_all is_digit (str_nat n)" by (rule str_nat_digits)
  have ne: "str_nat n \<noteq> []" by (rule str_nat_nonempty)
  then obtain ys y where s: "str_nat n = ys @ [y]" by (cases "str_nat n" rule: rev_cases) auto
  with d have "y \<noteq> CHR '']''" by (auto simp: is_digit_cases)
  then show ?thesis by (simp add: str_rstrip_def s)
qed


subsection \<open>One segment, and the loop\<close>

lemma value_at_append:
  "value_at v (sels @ sels') =
     (case value_at v sels of None \<Rightarrow> None | Some w \<Rightarrow> value_at w sels')"
  by (induction v sels rule: value_at.induct) (auto split: option.splits)

lemma seq_index_nat: "i < n \<Longrightarrow> seq_index n (int i) = Some i"
  by (simp add: seq_index_def)

lemma str_nat_chars:
  "CHR ''['' \<notin> set (str_nat i)" "CHR '']'' \<notin> set (str_nat i)" "CHR ''.'' \<notin> set (str_nat i)"
proof -
  have "is_digit c" if "c \<in> set (str_nat i)" for c
    using that str_nat_digits [of i] by (simp add: list_all_iff)
  then show "CHR ''['' \<notin> set (str_nat i)" "CHR '']'' \<notin> set (str_nat i)"
    "CHR ''.'' \<notin> set (str_nat i)"
    using is_digit_cases by blast+
qed

lemma extract_part_plain:
  assumes "plain_name name"
  shows "extract_part (JDict d) name =
           Inr (case map_of d name of Some v \<Rightarrow> v | None \<Rightarrow> JNull)"
  using assms by (simp add: extract_part_def plain_name_def)

lemma extract_part_indexed:
  assumes "plain_name name"
  shows "extract_part current (name @ CHR ''['' # str_nat i @ '']'') =
           (case (if name \<noteq> [] then subscript_str current name else Inr current) of
              Inl e \<Rightarrow> Inl e
            | Inr current' \<Rightarrow> subscript_int current' (int i))"
proof -
  from assms have "CHR ''['' \<notin> set name" by (simp add: plain_name_def)
  then have "str_split (CHR ''['') (name @ CHR ''['' # (str_nat i @ '']'')) =
               [name, str_nat i @ '']'']"
    by (simp add: str_split_append str_split_no_sep str_nat_chars)
  then show ?thesis
    by (simp add: extract_part_def str_rstrip_index py_int_str_nat)
qed

lemma extract_part_segment:
  assumes "plain_name (fst seg)" and "value_at current (selectors seg) = Some v"
  shows "extract_part current (segment_text seg) = Inr v"
proof (cases seg)
  case (Pair name idx)
  show ?thesis
  proof (cases idx)
    case None
    with assms Pair show ?thesis
      by (cases current) (auto simp: extract_part_plain split: option.splits)
  next
    case (Some i)
    show ?thesis
    proof (cases "name = []")
      case True
      with assms Pair Some extract_part_indexed [of "[]" current i] show ?thesis
        by (cases current) (auto simp: plain_name_def seq_index_nat split: if_splits)
    next
      case False
      with assms(2) Pair Some obtain d xs where
        "current = JDict d" "map_of d name = Some (JList xs)" "i < length xs" "v = xs ! i"
        by (cases current; simp split: option.splits; rename_tac w; case_tac w; simp split: if_splits)
      with assms(1) Pair Some False show ?thesis
        by (simp add: extract_part_indexed seq_index_nat)
    qed
  qed
qed

lemma selectors_nonempty: "selectors seg \<noteq> []"
  by (cases seg rule: selectors.cases) auto

lemma value_at_null_segments:
  assumes "value_at JNull (concat (map selectors segs)) = Some v"
  shows "segs = [] \<and> v = JNull"
proof (cases segs)
  case Nil
  with assms show ?thesis by simp
next
  case (Cons seg segs')
  with selectors_nonempty [of seg] obtain sel sels where
    "concat (map selectors segs) = sel # sels"
    by (cases "selectors seg") auto
  with assms show ?thesis by simp
qed

lemma extract_parts_resolve:
  "list_all (\<lambda>seg. plain_name (fst seg)) segs \<Longrightarrow>
   value_at current (concat (map selectors segs)) = Some v \<Longrightarrow>
   extract_parts path current (map segment_text segs) =
     (if segs \<noteq> [] \<and> v = JNull then Inl (ValueError (PathNotFound path)) else Inr v)"
proof (induction segs arbitrary: current)
  case Nil
  then show ?case by simp
next
  case (Cons seg segs)
  from Cons.prems(2) obtain w where
    w: "value_at current (selectors seg) = Some w"
    and v: "value_at w (concat (map selectors segs)) = Some v"
    by (auto simp: value_at_append split: option.splits)
  from Cons.prems(1) have p: "plain_name (fst seg)"
    and ps: "list_all (\<lambda>seg. plain_name (fst seg)) segs"
    by simp_all
  show ?case
  proof (cases "w = JNull")
    case True
    with v have "segs = [] \<and> v = JNull" by (simp add: value_at_null_segments)
    with True extract_part_segment [OF p w] show ?thesis by simp
  next
    case False
    with v have "segs \<noteq> [] \<or> v \<noteq> JNull" by (cases segs) auto
    with False extract_part_segment [OF p w] Cons.IH [OF ps v] show ?thesis by auto
  qed
qed

lemma segment_text_no_dot: "plain_name (fst seg) \<Longrightarrow> CHR ''.'' \<notin> set (segment_text seg)"
  by (cases seg rule: segment_text.cases) (auto simp: plain_name_def str_nat_chars)

lemma str_split_path_text:
  assumes "segs \<noteq> []" and "list_all (\<lambda>seg. plain_name (fst seg)) segs"
  shows "str_split (CHR ''.'') (path_text segs) = map segment_text segs"
proof -
  from assms(2) have "list_all (\<lambda>p. CHR ''.'' \<notin> set p) (map segment_text segs)"
    by (simp add: list_all_iff segment_text_no_dot)
  with assms(1) show ?thesis
    unfolding path_text_def by (intro str_split_join) simp_all
qed

subsection \<open>Claims about the extraction\<close>

text \<open>
  C1, as the code has it. Let \<open>p\<close> be the text of a path of at least one segment,
  either behind the prefix \<open>$.\<close> or bare; a bare text must not itself begin with
  \<open>$.\<close>, since the extraction always strips a leading \<open>$.\<close> as the prefix. Let
  every segment resolve in the document \<open>d\<close>, to the value \<open>v\<close>. Then
  \<open>extract(d, p)\<close> returns exactly \<open>v\<close> when \<open>v\<close> is not null, and fails with
  \<open>Path not found\<close> when it is. In particular
  \<^verbatim>\<open>extract({"user": {"name": "Alice"}}, "user.name")\<close> is \<^verbatim>\<open>"Alice"\<close>.
\<close>

theorem extract_resolving_path:
  assumes "segs \<noteq> []"
    and "list_all (\<lambda>seg. plain_name (fst seg)) segs"
    and "value_at d (concat (map selectors segs)) = Some v"
  shows "extract_json_path (Some d) (''$.'' @ path_text segs) =
           (if v = JNull then Inl (ValueError (PathNotFound (path_text segs))) else Inr v)
       \<and> (\<not> startswith (path_text segs) ''$.'' \<longrightarrow>
            extract_json_path (Some d) (path_text segs) =
              (if v = JNull then Inl (ValueError (PathNotFound (path_text segs))) else Inr v))"
  using assms(1) extract_parts_resolve [OF assms(2,3)] str_split_path_text [OF assms(1,2)]
  by (simp add: extract_json_path_def startswith_def)

text \<open>
  C1 as stated fails in two ways. Where null sits at the path: in \<^verbatim>\<open>{"a": null}\<close>
  the path \<open>a\<close> resolves, to null, and the extraction raises \<open>Path not found\<close>.
  And where the text of the path begins with \<open>$.\<close>: in
  \<^verbatim>\<open>{"$": {"a": 1}, "a": 2}\<close> the field names \<open>$\<close> and \<open>a\<close> resolve to
  \<^verbatim>\<open>1\<close>, but the extraction strips the \<open>$.\<close> of \<open>$.a\<close> as the prefix and
  returns \<^verbatim>\<open>2\<close>.
\<close>

theorem extract_null_counterexample:
  "value_at (JDict [(''a'', JNull)]) (concat (map selectors [(''a'', None)])) = Some JNull
   \<and> path_text [(''a'', None)] = ''a''
   \<and> extract_json_path (Some (JDict [(''a'', JNull)])) ''a'' = Inl (ValueError (PathNotFound ''a''))
   \<and> list_all (\<lambda>seg. plain_name (fst seg)) [(''$'', None), (''a'', None)]
   \<and> value_at (JDict [(''$'', JDict [(''a'', JInt 1)]), (''a'', JInt 2)])
        (concat (map selectors [(''$'', None), (''a'', None)])) = Some (JInt 1)
   \<and> path_text [(''$'', None), (''a'', None)] = ''$.a''
   \<and> extract_json_path (Some (JDict [(''$'', JDict [(''a'', JInt 1)]), (''a'', JInt 2)])) ''$.a''
       = Inr (JInt 2)"
  by (simp add: path_text_def extract_json_path_def startswith_def extract_part_def
      plain_name_def)

text \<open>
  At \<^verbatim>\<open>{"user": {"name": "Alice"}}\<close> with \<open>user.name\<close> and \<open>$.user.name\<close>, and
  at \<^verbatim>\<open>{"items": [[10], [20, null]]}\<close> with \<open>items[1].[0]\<close> and \<open>items[1].[1]\<close>.
\<close>

theorem extract_resolving_path_witness:
  "[(''user'', None), (''name'', None)] \<noteq> []
   \<and> list_all (\<lambda>seg. plain_name (fst seg)) [(''user'', None), (''name'', None)]
   \<and> value_at (JDict [(''user'', JDict [(''name'', JStr ''Alice'')])])
        (concat (map selectors [(''user'', None), (''name'', None)])) = Some (JStr ''Alice'')
   \<and> \<not> startswith ''user.name'' ''$.''
   \<and> extract_json_path (Some (JDict [(''user'', JDict [(''name'', JStr ''Alice'')])])) ''user.name''
       = Inr (JStr ''Alice'')
   \<and> extract_json_path (Some (JDict [(''user'', JDict [(''name'', JStr ''Alice'')])])) ''$.user.name''
       = Inr (JStr ''Alice'')
   \<and> value_at (JDict [(''items'', JList [JList [JInt 10], JList [JInt 20, JNull]])])
        (concat (map selectors [(''items'', Some 1), ([], Some 0)])) = Some (JInt 20)
   \<and> extract_json_path (Some (JDict [(''items'', JList [JList [JInt 10], JList [JInt 20, JNull]])]))
        ''items[1].[0]'' = Inr (JInt 20)
   \<and> value_at (JDict [(''items'', JList [JList [JInt 10], JList [JInt 20, JNull]])])
        (concat (map selectors [(''items'', Some 1), ([], Some 1)])) = Some JNull
   \<and> extract_json_path (Some (JDict [(''items'', JList [JList [JInt 10], JList [JInt 20, JNull]])]))
        ''items[1].[1]'' = Inl (ValueError (PathNotFound ''items[1].[1]''))"
proof -
  have h: "[(''user'', None :: nat option), (''name'', None)] \<noteq> []"
    "list_all (\<lambda>seg. plain_name (fst seg)) [(''user'', None :: nat option), (''name'', None)]"
    "value_at (JDict [(''user'', JDict [(''name'', JStr ''Alice'')])])
        (concat (map selectors [(''user'', None), (''name'', None)])) = Some (JStr ''Alice'')"
    by (simp_all add: plain_name_def)
  have t: "path_text [(''user'', None), (''name'', None)] = ''user.name''"
    by (simp add: path_text_def)
  have i: "[(''items'', Some 1), ([], Some k)] \<noteq> []"
    "list_all (\<lambda>seg. plain_name (fst seg)) [(''items'', Some 1), ([], Some k)]" for k :: nat
    by (simp_all add: plain_name_def)
  have v0: "value_at (JDict [(''items'', JList [JList [JInt 10], JList [JInt 20, JNull]])])
        (concat (map selectors [(''items'', Some 1), ([], Some 0)])) = Some (JInt 20)"
    and v1: "value_at (JDict [(''items'', JList [JList [JInt 10], JList [JInt 20, JNull]])])
        (concat (map selectors [(''items'', Some 1), ([], Some 1)])) = Some JNull"
    by simp_all
  have u: "path_text [(''items'', Some 1), ([], Some 0)] = ''items[1].[0]''"
    "path_text [(''items'', Some 1), ([], Some 1)] = ''items[1].[1]''"
    by (simp_all add: path_text_def str_nat.simps digit_char_def)
  have e0: "extract_json_path
      (Some (JDict [(''items'', JList [JList [JInt 10], JList [JInt 20, JNull]])]))
      ''items[1].[0]'' = Inr (JInt 20)"
    using extract_resolving_path [OF i v0] unfolding u by (simp add: startswith_def)
  have e1: "extract_json_path
      (Some (JDict [(''items'', JList [JList [JInt 10], JList [JInt 20, JNull]])]))
      ''items[1].[1]'' = Inl (ValueError (PathNotFound ''items[1].[1]''))"
    using extract_resolving_path [OF i v1] unfolding u by (simp add: startswith_def)
  show ?thesis
    using h v0 v1 e0 e1 extract_resolving_path [OF h]
    by (simp add: t startswith_def)
qed

text \<open>
  C2 does not hold of the code. A segment with a bracketed index subscripts the current
  value without the checks the other branch makes, so Python's own exceptions escape:
  \<^verbatim>\<open>IndexError\<close> for an index out of range, \<^verbatim>\<open>KeyError\<close> for an absent key (and
  for an index into an object), \<^verbatim>\<open>TypeError\<close> for a field of an array and for an index
  into a number; and an index into a string succeeds, with the character there. The
  branch for a plain field name reports the same absent key and the same array as the
  claim says.
\<close>

theorem extract_untyped_failures:
  "extract_json_path (Some (JDict [(''a'', JList [JInt 1, JInt 2])])) ''a[5]'' = Inl IndexError
   \<and> extract_json_path (Some (JDict [(''a'', JList [JInt 1, JInt 2])])) ''b[0]'' = Inl KeyError
   \<and> extract_json_path (Some (JList [JInt 1, JInt 2])) ''a[0]'' = Inl TypeError
   \<and> extract_json_path (Some (JDict [(''a'', JInt 1)])) ''a[0]'' = Inl TypeError
   \<and> extract_json_path (Some (JDict [(''a'', JDict [])])) ''a[0]'' = Inl KeyError
   \<and> extract_json_path (Some (JDict [(''a'', JStr ''xy'')])) ''a[0]'' = Inr (JStr ''x'')
   \<and> extract_json_path (Some (JDict [(''a'', JList [JInt 1, JInt 2])])) ''b''
       = Inl (ValueError (PathNotFound ''b''))
   \<and> extract_json_path (Some (JList [JInt 1, JInt 2])) ''a''
       = Inl (ValueError (CannotAccess ''a''))"
  by (simp add: extract_json_path_def startswith_def extract_part_def str_rstrip_def
      py_int_def str_strip_def is_space_def is_digit_def decimal_def digit_val_def
      seq_index_def)

end
